theory Spec2Isabelle
  imports Complex_Main "HOL-Library.Word"
begin

section \<open>NetCDF to Hyper: the notebook's procedure\<close>

text \<open>
  The notebook \<^verbatim>\<open>NetCDF/NetCDF to Hyper.ipynb\<close> reads one gridded NetCDF file,
  walks over its grid collecting two lists of rows (\<^verbatim>\<open>data_geom\<close>, \<^verbatim>\<open>data\<close>) and writes
  them into two tables of a \<^verbatim>\<open>.hyper\<close> file. The cells are modelled in the order in
  which the notebook runs them; a raised exception ends the run.
\<close>

subsection \<open>Python values and exceptions\<close>

text \<open>
  The rows are Python lists of a string and two numbers. \<open>PyInt\<close> is a \<^verbatim>\<open>numpy.int32\<close>:
  the file of the notebook declares \<^verbatim>\<open>int32 time(time)\<close> (output of cell 8).
  \<open>PyMasked\<close> is the constant \<^verbatim>\<open>numpy.ma.masked\<close>, which indexing a masked array
  returns at a masked position. Floating-point numbers are only carried from the input
  to the output, never computed with; they are modelled as reals.
\<close>

datatype pyval = PyStr string | PyInt "32 word" | PyFloat real | PyMasked

datatype error =
    OSError
  | KeyError string
  | IndexError
  | HyperException

definition bind_err :: "error + 'a \<Rightarrow> ('a \<Rightarrow> error + 'b) \<Rightarrow> error + 'b" where
  "bind_err r f = (case r of Inl e \<Rightarrow> Inl e | Inr v \<Rightarrow> f v)"

text \<open>Indexing with a non-negative index, as produced by \<^verbatim>\<open>range\<close>.\<close>

definition getitem :: "'a list \<Rightarrow> nat \<Rightarrow> error + 'a" where
  "getitem xs i = (if i < length xs then Inr (xs ! i) else Inl IndexError)"

subsection \<open>Cell identifiers: \<^verbatim>\<open>f'{y}-{x}'\<close>\<close>

definition digit_char :: "nat \<Rightarrow> char" where
  "digit_char d = ''0123456789'' ! d"

text \<open>\<^verbatim>\<open>str\<close> of a non-negative integer: decimal, no leading zeros.\<close>

fun str_nat :: "nat \<Rightarrow> string" where
  "str_nat n = (if n < 10 then [digit_char n] else str_nat (n div 10) @ [digit_char (n mod 10)])"

definition combine :: "nat \<Rightarrow> nat \<Rightarrow> string" where
  "combine y x = str_nat y @ ''-'' @ str_nat x"

subsection \<open>The output path (cell 5)\<close>

text \<open>
  The Python slice \<^verbatim>\<open>s[:k]\<close>: a negative \<open>k\<close> counts from the end, and a bound outside
  the string is clamped, so the slice never raises.
\<close>

definition slice_to :: "'a list \<Rightarrow> int \<Rightarrow> 'a list" where
  "slice_to s k =
     (let n = int (length s);
          j = (if k < 0 then max 0 (n + k) else min n k)
      in take (nat j) s)"

definition OUTPUT_HYPER :: "string \<Rightarrow> string" where
  "OUTPUT_HYPER INPUT_NETCDF = slice_to INPUT_NETCDF (- 3) @ ''.hyper''"

subsection \<open>The grid reader (cells 7 and 9)\<close>

text \<open>
  The mask of a masked array. When no value of the array is missing, netCDF4 returns
  the array with the scalar \<^verbatim>\<open>numpy.ma.nomask\<close> as its mask; otherwise the mask is an
  array aligned with the numbers, \<open>True\<close> marking a position without a measurement.
\<close>

datatype mask = nomask | MaskArray "bool list list"

record masked_array =
  ma_data :: "real list list"
  ma_mask :: mask

text \<open>
  An opened file: its named dimensions and the four variables the notebook reads
  (\<open>None\<close> when the file has no variable of that name). \<^verbatim>\<open>SMI\<close> is indexed by
  (time, northing, easting), and \<open>var_SMI\<close> lists what \<^verbatim>\<open>nc.variables['SMI'][i]\<close>
  returns for each \<open>i\<close>; \<^verbatim>\<open>lat\<close> and \<^verbatim>\<open>lon\<close> are indexed by (northing, easting). Only
  \<^verbatim>\<open>SMI\<close> is read through its mask; \<^verbatim>\<open>time\<close>, \<^verbatim>\<open>lat\<close> and \<^verbatim>\<open>lon\<close> are taken to
  hold a number at every position.
\<close>

record dataset =
  dimensions :: "(string \<times> nat) list"
  var_time :: "32 word list option"
  var_lat :: "real list list option"
  var_lon :: "real list list option"
  var_SMI :: "masked_array list option"

text \<open>\<^verbatim>\<open>nc.dimensions[name].size\<close> and \<^verbatim>\<open>nc.variables[name]\<close>: a missing key raises.\<close>

definition dimension_size :: "dataset \<Rightarrow> string \<Rightarrow> error + nat" where
  "dimension_size nc name =
     (case map_of (dimensions nc) name of None \<Rightarrow> Inl (KeyError name) | Some n \<Rightarrow> Inr n)"

definition variable :: "string \<Rightarrow> 'a option \<Rightarrow> error + 'a" where
  "variable name v = (case v of None \<Rightarrow> Inl (KeyError name) | Some a \<Rightarrow> Inr a)"

text \<open>
  \<^verbatim>\<open>m.mask[y][x]\<close> on a two-dimensional masked array \<open>m\<close>. The scalar \<^verbatim>\<open>nomask\<close>
  cannot be indexed: \<^verbatim>\<open>IndexError: invalid index to scalar variable\<close>.
\<close>

definition mask_at :: "masked_array \<Rightarrow> nat \<Rightarrow> nat \<Rightarrow> error + bool" where
  "mask_at m y x =
     (case ma_mask m of
        nomask \<Rightarrow> Inl IndexError
      | MaskArray a \<Rightarrow> bind_err (getitem a y) (\<lambda>mask_y. getitem mask_y x))"

text \<open>\<^verbatim>\<open>m[y][x]\<close>: the number at that position, or \<^verbatim>\<open>masked\<close> when the mask is set there.\<close>

definition value_at :: "masked_array \<Rightarrow> nat \<Rightarrow> nat \<Rightarrow> error + pyval" where
  "value_at m y x =
     bind_err (getitem (ma_data m) y) (\<lambda>data_y.
     bind_err (getitem data_y x) (\<lambda>v.
       case ma_mask m of
         nomask \<Rightarrow> Inr (PyFloat v)
       | MaskArray a \<Rightarrow>
           bind_err (getitem a y) (\<lambda>mask_y.
           bind_err (getitem mask_y x) (\<lambda>masked.
             Inr (if masked then PyMasked else PyFloat v)))))"

subsection \<open>The extraction loop (cells 12 and 14)\<close>

text \<open>The two lists the loop appends to.\<close>

record lists =
  data :: "pyval list list"
  data_geom :: "pyval list list"

text \<open>A \<^verbatim>\<open>for\<close> loop over a list of indices; an exception in the body ends it.\<close>

fun for_range :: "(nat \<Rightarrow> 's \<Rightarrow> error + 's) \<Rightarrow> nat list \<Rightarrow> 's \<Rightarrow> error + 's" where
  "for_range body [] st = Inr st"
| "for_range body (k # ks) st = bind_err (body k st) (for_range body ks)"

text \<open>
  The two statements of the innermost loop's body, for time step \<open>i\<close> and the cell in
  row \<open>y\<close>, column \<open>x\<close>: \<^verbatim>\<open>if i == 0: data_geom.append(...)\<close> and
  \<^verbatim>\<open>if nc.variables['SMI'][i].mask[y][x] == False: data.append(...)\<close>.
\<close>

definition append_geom :: "dataset \<Rightarrow> nat \<Rightarrow> nat \<Rightarrow> nat \<Rightarrow> lists \<Rightarrow> error + lists" where
  "append_geom nc i y x st =
     (if i = 0 then
        bind_err (variable ''lat'' (var_lat nc)) (\<lambda>lat.
        bind_err (getitem lat y) (\<lambda>lat_y.
        bind_err (getitem lat_y x) (\<lambda>lat_yx.
        bind_err (variable ''lon'' (var_lon nc)) (\<lambda>lon.
        bind_err (getitem lon y) (\<lambda>lon_y.
        bind_err (getitem lon_y x) (\<lambda>lon_yx.
          Inr (st\<lparr>data_geom := data_geom st @
                 [[PyStr (combine y x), PyFloat lat_yx, PyFloat lon_yx]]\<rparr>)))))))
      else Inr st)"

definition append_data :: "dataset \<Rightarrow> nat \<Rightarrow> nat \<Rightarrow> nat \<Rightarrow> lists \<Rightarrow> error + lists" where
  "append_data nc i y x st =
     bind_err (variable ''SMI'' (var_SMI nc)) (\<lambda>smi.
     bind_err (getitem smi i) (\<lambda>smi_i.
     bind_err (mask_at smi_i y x) (\<lambda>masked.
       if masked = False then
         bind_err (variable ''time'' (var_time nc)) (\<lambda>time.
         bind_err (getitem time i) (\<lambda>time_i.
         bind_err (value_at smi_i y x) (\<lambda>v.
           Inr (st\<lparr>data := data st @ [[PyStr (combine y x), PyInt time_i, v]]\<rparr>))))
       else Inr st)))"

definition cell_body :: "dataset \<Rightarrow> nat \<Rightarrow> nat \<Rightarrow> nat \<Rightarrow> lists \<Rightarrow> error + lists" where
  "cell_body nc i y x st = bind_err (append_geom nc i y x st) (append_data nc i y x)"

text \<open>One pass over the grid for time step \<open>i\<close>: columns outside, rows inside.\<close>

definition time_step :: "dataset \<Rightarrow> nat \<Rightarrow> nat \<Rightarrow> nat \<Rightarrow> lists \<Rightarrow> error + lists" where
  "time_step nc y_size x_size i =
     for_range (\<lambda>x. for_range (\<lambda>y. cell_body nc i y x) [0..<y_size]) [0..<x_size]"

text \<open>
  The whole extraction, \<^verbatim>\<open>for i in range(0, stop)\<close> from empty lists. The notebook has
  \<open>stop = 1\<close> and names \<open>stop\<close> as the value to change to read more time steps.
\<close>

definition extraction :: "dataset \<Rightarrow> nat \<Rightarrow> error + lists" where
  "extraction nc stop =
     bind_err (dimension_size nc ''northing'') (\<lambda>y_size.
     bind_err (dimension_size nc ''easting'') (\<lambda>x_size.
       for_range (time_step nc y_size x_size) [0..<stop] \<lparr>data = [], data_geom = []\<rparr>))"

subsection \<open>The table writer (cell 16)\<close>

text \<open>
  The Hyper database is modelled as a catalog: the schemas, and the tables with their
  definitions and rows. A new database has the schema \<^verbatim>\<open>public\<close> and no table. A
  catalog operation raises when the name is taken or the schema is missing; the
  inserter raises when a row does not fit the columns. A number given for a
  \<^verbatim>\<open>double\<close> column is stored as a double: a float as it is, an \<^verbatim>\<open>int32\<close> as the
  double of the same value (every \<^verbatim>\<open>int32\<close> is one), and \<^verbatim>\<open>masked\<close> as NaN.
\<close>

datatype sqltype = SqlText | SqlDouble

datatype cell = TextCell string | DoubleCell real | NaNCell

record table_definition =
  table_name :: "string \<times> string"
  columns :: "(string \<times> sqltype) list"

record table =
  definition_of :: table_definition
  rows :: "cell list list"

record database =
  schemas :: "string list"
  tables :: "table list"

definition new_database :: database where
  "new_database = \<lparr>schemas = [''public''], tables = []\<rparr>"

definition create_schema :: "string \<Rightarrow> database \<Rightarrow> error + database" where
  "create_schema name db =
     (if name \<in> set (schemas db) then Inl HyperException
      else Inr (db\<lparr>schemas := schemas db @ [name]\<rparr>))"

definition create_table :: "table_definition \<Rightarrow> database \<Rightarrow> error + database" where
  "create_table td db =
     (if fst (table_name td) \<notin> set (schemas db)
         \<or> table_name td \<in> set (map (\<lambda>t. table_name (definition_of t)) (tables db))
      then Inl HyperException
      else Inr (db\<lparr>tables := tables db @ [\<lparr>definition_of = td, rows = []\<rparr>]\<rparr>))"

fun to_cell :: "sqltype \<Rightarrow> pyval \<Rightarrow> error + cell" where
  "to_cell SqlText (PyStr s) = Inr (TextCell s)"
| "to_cell SqlDouble (PyFloat r) = Inr (DoubleCell r)"
| "to_cell SqlDouble (PyInt k) = Inr (DoubleCell (of_int (sint k)))"
| "to_cell SqlDouble PyMasked = Inr NaNCell"
| "to_cell _ _ = Inl HyperException"

fun to_cells :: "(string \<times> sqltype) list \<Rightarrow> pyval list \<Rightarrow> error + cell list" where
  "to_cells [] [] = Inr []"
| "to_cells (c # cs) (v # vs) =
     bind_err (to_cell (snd c) v) (\<lambda>a. bind_err (to_cells cs vs) (\<lambda>as. Inr (a # as)))"
| "to_cells _ _ = Inl HyperException"

fun add_rows :: "(string \<times> sqltype) list \<Rightarrow> pyval list list \<Rightarrow> error + cell list list" where
  "add_rows cs [] = Inr []"
| "add_rows cs (r # rs) =
     bind_err (to_cells cs r) (\<lambda>a. bind_err (add_rows cs rs) (\<lambda>as. Inr (a # as)))"

text \<open>
  \<^verbatim>\<open>with Inserter(connection, td) as inserter: inserter.add_rows(rs); inserter.execute()\<close>
\<close>

definition insert_rows :: "table_definition \<Rightarrow> pyval list list \<Rightarrow> database \<Rightarrow> error + database" where
  "insert_rows td rs db =
     (if td \<notin> set (map definition_of (tables db)) then Inl HyperException
      else bind_err (add_rows (columns td) rs) (\<lambda>new.
        Inr (db\<lparr>tables :=
               map (\<lambda>t. if definition_of t = td then t\<lparr>rows := rows t @ new\<rparr> else t)
                 (tables db)\<rparr>)))"

definition schema_data :: table_definition where
  "schema_data =
     \<lparr>table_name = (''Data'', ''Data''),
      columns = [(''ID'', SqlText), (''Time'', SqlDouble), (''Value'', SqlDouble)]\<rparr>"

definition schema_geom :: table_definition where
  "schema_geom =
     \<lparr>table_name = (''Geom'', ''Geom''),
      columns = [(''ID'', SqlText), (''Latitude'', SqlDouble), (''Longitude'', SqlDouble)]\<rparr>"

text \<open>
  A statement inside the \<^verbatim>\<open>with Connection\<close> block: once one has raised, the rest is
  skipped and the database stays as it was before the failing statement.
\<close>

definition statement ::
  "(database \<Rightarrow> error + database) \<Rightarrow> error option \<times> database \<Rightarrow> error option \<times> database" where
  "statement f s =
     (case s of
        (Some e, db) \<Rightarrow> (Some e, db)
      | (None, db) \<Rightarrow> (case f db of Inl e \<Rightarrow> (Some e, db) | Inr db' \<Rightarrow> (None, db')))"

text \<open>
  The connection is opened with \<^verbatim>\<open>CreateMode.CREATE_AND_REPLACE\<close>: the block starts
  from a new database whatever the file held. The result is the exception raised, if
  any, and the database left in the file.
\<close>

definition write_hyper :: "pyval list list \<Rightarrow> pyval list list \<Rightarrow> error option \<times> database" where
  "write_hyper d g =
     fold statement
       [create_schema ''Data'',
        create_schema ''Geom'',
        create_table schema_data,
        create_table schema_geom,
        insert_rows schema_data d,
        insert_rows schema_geom g]
       (None, new_database)"

subsection \<open>The whole run\<close>

datatype file_content = NetCDF dataset | Hyper database

text \<open>\<^verbatim>\<open>netCDF4.Dataset(path)\<close>: the file must exist and be a NetCDF file.\<close>

definition Dataset :: "(string \<rightharpoonup> file_content) \<Rightarrow> string \<Rightarrow> error + dataset" where
  "Dataset fs path = (case fs path of Some (NetCDF nc) \<Rightarrow> Inr nc | _ \<Rightarrow> Inl OSError)"

text \<open>
  All cells in order, on the files \<open>fs\<close>: the exception that ended the run, if any, and
  the files afterwards.
\<close>

definition run ::
  "string \<Rightarrow> nat \<Rightarrow> (string \<rightharpoonup> file_content) \<Rightarrow> error option \<times> (string \<rightharpoonup> file_content)" where
  "run INPUT_NETCDF stop fs =
     (case bind_err (Dataset fs INPUT_NETCDF) (\<lambda>nc. extraction nc stop) of
        Inl e \<Rightarrow> (Some e, fs)
      | Inr st \<Rightarrow>
          (case write_hyper (data st) (data_geom st) of
             (err, db) \<Rightarrow> (err, fs(OUTPUT_HYPER INPUT_NETCDF \<mapsto> Hyper db))))"

subsection \<open>Input files that fit their own header\<close>

text \<open>
  A file whose variables have the shapes its dimensions declare: \<open>ys\<close> rows and \<open>xs\<close>
  columns for \<^verbatim>\<open>lat\<close>, \<^verbatim>\<open>lon\<close> and every time step of \<^verbatim>\<open>SMI\<close> (the numbers, and
  the mask when it is an array), and as many time steps of \<^verbatim>\<open>SMI\<close> as entries of
  \<^verbatim>\<open>time\<close>.
\<close>

definition has_shape :: "'a list list \<Rightarrow> nat \<Rightarrow> nat \<Rightarrow> bool" where
  "has_shape a ys xs = (length a = ys \<and> list_all (\<lambda>row. length row = xs) a)"

fun mask_fits :: "mask \<Rightarrow> nat \<Rightarrow> nat \<Rightarrow> bool" where
  "mask_fits nomask ys xs = True"
| "mask_fits (MaskArray a) ys xs = has_shape a ys xs"

definition conforms ::
  "dataset \<Rightarrow> nat \<Rightarrow> nat \<Rightarrow> 32 word list \<Rightarrow> real list list \<Rightarrow> real list list \<Rightarrow> masked_array list \<Rightarrow> bool" where
  "conforms nc ys xs time lat lon smi =
     (map_of (dimensions nc) ''northing'' = Some ys \<and>
      map_of (dimensions nc) ''easting'' = Some xs \<and>
      var_time nc = Some time \<and> var_lat nc = Some lat \<and>
      var_lon nc = Some lon \<and> var_SMI nc = Some smi \<and>
      length smi = length time \<and>
      has_shape lat ys xs \<and> has_shape lon ys xs \<and>
      list_all (\<lambda>m. has_shape (ma_data m) ys xs \<and> mask_fits (ma_mask m) ys xs) smi)"

text \<open>The first field of a row, its identifier.\<close>

definition row_id :: "pyval list \<Rightarrow> pyval option" where
  "row_id r = (case r of [] \<Rightarrow> None | v # _ \<Rightarrow> Some v)"

text \<open>A row as both record types have it: a string and two numbers.\<close>

fun is_number :: "pyval \<Rightarrow> bool" where
  "is_number (PyInt _) = True"
| "is_number (PyFloat _) = True"
| "is_number _ = False"

fun is_record :: "pyval list \<Rightarrow> bool" where
  "is_record [PyStr _, a, b] = (is_number a \<and> is_number b)"
| "is_record _ = False"

subsection \<open>A small file\<close>

text \<open>
  A 2 by 2 grid with the single time value 100 and \<^verbatim>\<open>SMI = [[1.0, masked], [2.0, 3.0]]\<close>;
  \<open>lat\<close>, \<open>lon\<close> and the number stored under the mask are left open.
\<close>

definition small_smi :: "real \<Rightarrow> masked_array list" where
  "small_smi fill =
     [\<lparr>ma_data = [[1, fill], [2, 3]],
       ma_mask = MaskArray [[False, True], [False, False]]\<rparr>]"

definition small_grid :: "real list list \<Rightarrow> real list list \<Rightarrow> real \<Rightarrow> dataset" where
  "small_grid lat lon fill =
     \<lparr>dimensions = [(''time'', 1), (''easting'', 2), (''northing'', 2)],
      var_time = Some [100],
      var_lat = Some lat,
      var_lon = Some lon,
      var_SMI = Some (small_smi fill)\<rparr>"

text \<open>The same file without the \<^verbatim>\<open>northing\<close> dimension in its header.\<close>

definition no_northing :: dataset where
  "no_northing =
     (small_grid [[1, 2], [3, 4]] [[5, 6], [7, 8]] 0)
       \<lparr>dimensions := [(''time'', 1), (''easting'', 2)]\<rparr>"

text \<open>
  The same grid with \<^verbatim>\<open>SMI = [[1.0, 4.0], [2.0, 3.0]]\<close>, no value missing: netCDF4
  returns the time step with the mask \<^verbatim>\<open>nomask\<close>.
\<close>

definition unmasked_grid :: "real list list \<Rightarrow> real list list \<Rightarrow> dataset" where
  "unmasked_grid lat lon =
     \<lparr>dimensions = [(''time'', 1), (''easting'', 2), (''northing'', 2)],
      var_time = Some [100],
      var_lat = Some lat,
      var_lon = Some lon,
      var_SMI = Some [\<lparr>ma_data = [[1, 4], [2, 3]], ma_mask = nomask\<rparr>]\<rparr>"

subsection \<open>The rows a cell contributes\<close>

text \<open>
  For a file that fits its header, what the loop body appends for time step \<open>i\<close> and
  the cell \<open>(y, x)\<close> when the time step has a mask array, and the order in which the
  grid is walked. These describe the result of the loop in the lemmas below; the
  indices are in range there.
\<close>

definition geom_rows :: "real list list \<Rightarrow> real list list \<Rightarrow> nat \<Rightarrow> nat \<Rightarrow> nat \<Rightarrow> pyval list list" where
  "geom_rows lat lon i y x =
     (if i = 0 then [[PyStr (combine y x), PyFloat (lat ! y ! x), PyFloat (lon ! y ! x)]] else [])"

definition masked_at :: "masked_array \<Rightarrow> nat \<Rightarrow> nat \<Rightarrow> bool" where
  "masked_at m y x = (case ma_mask m of nomask \<Rightarrow> False | MaskArray a \<Rightarrow> a ! y ! x)"

definition data_rows :: "32 word list \<Rightarrow> masked_array list \<Rightarrow> nat \<Rightarrow> nat \<Rightarrow> nat \<Rightarrow> pyval list list" where
  "data_rows time smi i y x =
     (if masked_at (smi ! i) y x then []
      else [[PyStr (combine y x), PyInt (time ! i), PyFloat (ma_data (smi ! i) ! y ! x)]])"

definition over_grid :: "nat \<Rightarrow> nat \<Rightarrow> (nat \<Rightarrow> nat \<Rightarrow> 'a list) \<Rightarrow> 'a list" where
  "over_grid ys xs f = concat (map (\<lambda>x. concat (map (\<lambda>y. f y x) [0..<ys])) [0..<xs])"

section \<open>Properties\<close>

subsection \<open>Decimal strings\<close>

lemmas str_nat_unfold = str_nat.simps

declare str_nat.simps [simp del]

lemma digit_char_inj:
  assumes "a < 10" "b < 10" "digit_char a = digit_char b"
  shows "a = b"
proof -
  have d: "distinct ''0123456789''" by simp
  have "a < length ''0123456789''" "b < length ''0123456789''"
    using assms by simp_all
  with d assms(3) show ?thesis
    unfolding digit_char_def by (simp only: nth_eq_iff_index_eq)
qed

lemma digit_char_not_dash:
  assumes "d < 10"
  shows "digit_char d \<noteq> CHR ''-''"
proof -
  have "d < length ''0123456789''" using assms by simp
  then have "digit_char d \<in> set ''0123456789''"
    unfolding digit_char_def by (rule nth_mem)
  then show ?thesis by auto
qed

lemma str_nat_small: "n < 10 \<Longrightarrow> str_nat n = [digit_char n]"
  by (subst str_nat_unfold) simp

lemma str_nat_big:
  "\<not> n < 10 \<Longrightarrow> str_nat n = str_nat (n div 10) @ [digit_char (n mod 10)]"
  by (subst str_nat_unfold) simp

lemma str_nat_nonempty: "str_nat n \<noteq> []"
  by (cases "n < 10") (simp_all add: str_nat_small str_nat_big)

lemma str_nat_no_dash: "CHR ''-'' \<notin> set (str_nat n)"
proof (induction n rule: str_nat.induct)
  case (1 n)
  show ?case
  proof (cases "n < 10")
    case True
    then show ?thesis
      using digit_char_not_dash [of n] by (simp add: str_nat_small)
  next
    case False
    have "n mod 10 < 10" by simp
    then have "digit_char (n mod 10) \<noteq> CHR ''-''" by (rule digit_char_not_dash)
    with False "1.IH" show ?thesis by (auto simp add: str_nat_big)
  qed
qed

lemma str_nat_inj: "str_nat m = str_nat n \<Longrightarrow> m = n"
proof (induction m arbitrary: n rule: str_nat.induct)
  case (1 m)
  show ?case
  proof (cases "m < 10")
    case m_small: True
    show ?thesis
    proof (cases "n < 10")
      case True
      with m_small "1.prems" show ?thesis
        by (simp add: str_nat_small digit_char_inj)
    next
      case False
      with m_small "1.prems" str_nat_nonempty [of "n div 10"] show ?thesis
        by (simp add: str_nat_small str_nat_big)
    qed
  next
    case m_big: False
    show ?thesis
    proof (cases "n < 10")
      case True
      with m_big "1.prems" str_nat_nonempty [of "m div 10"] show ?thesis
        by (simp add: str_nat_small str_nat_big)
    next
      case False
      with m_big "1.prems" have eq: "str_nat (m div 10) = str_nat (n div 10)"
        and dg: "digit_char (m mod 10) = digit_char (n mod 10)"
        by (simp_all add: str_nat_big)
      from m_big eq have "m div 10 = n div 10" by (rule "1.IH")
      moreover have "m mod 10 = n mod 10"
        using dg by (intro digit_char_inj) simp_all
      ultimately show ?thesis by (metis div_mult_mod_eq)
    qed
  qed
qed

lemma split_at_dash:
  assumes "CHR ''-'' \<notin> set a" "CHR ''-'' \<notin> set c"
    and "a @ CHR ''-'' # b = c @ CHR ''-'' # d"
  shows "a = c \<and> b = d"
  using assms
proof (induction a arbitrary: c)
  case Nil
  then show ?case by (cases c) auto
next
  case (Cons h a)
  then show ?case by (cases c) auto
qed

lemma combine_inj: "combine y1 x1 = combine y2 x2 \<Longrightarrow> y1 = y2 \<and> x1 = x2"
proof -
  assume "combine y1 x1 = combine y2 x2"
  then have "str_nat y1 @ CHR ''-'' # str_nat x1 = str_nat y2 @ CHR ''-'' # str_nat x2"
    by (simp add: combine_def)
  then have "str_nat y1 = str_nat y2 \<and> str_nat x1 = str_nat x2"
    by (intro split_at_dash str_nat_no_dash)
  then show ?thesis by (simp add: str_nat_inj)
qed

text \<open>
  C5: the identifier \<^verbatim>\<open>f'{y}-{x}'\<close> is unique per cell: two different cells
  \<open>(y1, x1)\<close> and \<open>(y2, x2)\<close> with non-negative indices never get the same string.
\<close>

theorem combine_unique:
  "(y1, x1) \<noteq> (y2, x2) \<Longrightarrow> combine y1 x1 \<noteq> combine y2 x2"
  using combine_inj [of y1 x1 y2 x2] by blast

theorem combine_unique_witness:
  "((1::nat), (11::nat)) \<noteq> (11, 1) \<and> combine 1 11 \<noteq> combine 11 1"
  using combine_unique [of 1 11 11 1] by simp

subsection \<open>The output path\<close>

lemma output_differs: "OUTPUT_HYPER p \<noteq> p"
proof
  assume "OUTPUT_HYPER p = p"
  then have "length (OUTPUT_HYPER p) = length p" by simp
  then show False
    by (simp add: OUTPUT_HYPER_def slice_to_def Let_def max_def split: if_splits)
qed

text \<open>
  C10: the output path is the input path without its last three characters, followed
  by \<^verbatim>\<open>.hyper\<close>. Nothing looks at what the three characters are: whatever \<open>a\<close>, \<open>b\<close>
  and \<open>c\<close> end the path, they are dropped.
\<close>

theorem output_path:
  "OUTPUT_HYPER p = take (length p - 3) p @ ''.hyper'' \<and>
   OUTPUT_HYPER (stem @ [a, b, c]) = stem @ ''.hyper''"
  by (simp add: OUTPUT_HYPER_def slice_to_def Let_def nat_diff_distrib' max_def)

subsection \<open>The result of the extraction loop\<close>

lemma bind_err_Inr [simp]: "bind_err (Inr v) f = f v"
  by (simp add: bind_err_def)

lemma bind_err_Inl [simp]: "bind_err (Inl e) f = Inl e"
  by (simp add: bind_err_def)

lemma getitem_in_range: "i < length xs \<Longrightarrow> getitem xs i = Inr (xs ! i)"
  by (simp add: getitem_def)

lemma has_shape_row: "has_shape a ys xs \<Longrightarrow> y < ys \<Longrightarrow> length (a ! y) = xs"
  by (simp add: has_shape_def list_all_length)

lemma has_shape_rows: "has_shape a ys xs \<Longrightarrow> length a = ys"
  by (simp add: has_shape_def)

lemma getitem2:
  "has_shape a ys xs \<Longrightarrow> y < ys \<Longrightarrow> x < xs \<Longrightarrow>
   bind_err (getitem a y) (\<lambda>r. bind_err (getitem r x) f) = f (a ! y ! x)"
  by (simp add: getitem_in_range has_shape_row has_shape_rows)

lemma mask_at_nomask: "ma_mask m = nomask \<Longrightarrow> mask_at m y x = Inl IndexError"
  by (simp add: mask_at_def)

lemma mask_at_in_range:
  assumes "mask_fits (ma_mask m) ys xs" "ma_mask m \<noteq> nomask" "y < ys" "x < xs"
  shows "mask_at m y x = Inr (masked_at m y x)"
proof (cases "ma_mask m")
  case nomask
  with assms(2) show ?thesis by simp
next
  case (MaskArray a)
  with assms(1) have "has_shape a ys xs" by simp
  with MaskArray assms(3,4) show ?thesis
    by (simp add: mask_at_def masked_at_def getitem_in_range has_shape_row has_shape_rows)
qed

lemma value_at_in_range:
  assumes "has_shape (ma_data m) ys xs" "mask_fits (ma_mask m) ys xs" "y < ys" "x < xs"
  shows "value_at m y x = Inr (if masked_at m y x then PyMasked else PyFloat (ma_data m ! y ! x))"
proof (cases "ma_mask m")
  case nomask
  with assms show ?thesis
    by (simp add: value_at_def masked_at_def getitem_in_range has_shape_row has_shape_rows)
next
  case (MaskArray a)
  with assms(2) have "has_shape a ys xs" by simp
  with MaskArray assms(1,3,4) show ?thesis
    by (simp add: value_at_def masked_at_def getitem_in_range has_shape_row has_shape_rows)
qed

lemma conforms_step:
  assumes "conforms nc ys xs time lat lon smi" "i < length time"
  shows "has_shape (ma_data (smi ! i)) ys xs" "mask_fits (ma_mask (smi ! i)) ys xs"
  using assms by (simp_all add: conforms_def list_all_length)

lemma append_geom_eq:
  assumes c: "conforms nc ys xs time lat lon smi" and y: "y < ys" and x: "x < xs"
  shows "append_geom nc i y x st = Inr (st\<lparr>data_geom := data_geom st @ geom_rows lat lon i y x\<rparr>)"
proof -
  from c have vars: "var_lat nc = Some lat" "var_lon nc = Some lon"
    and lat: "has_shape lat ys xs" and lon: "has_shape lon ys xs"
    by (simp_all add: conforms_def)
  show ?thesis
    using y x
    by (simp add: append_geom_def vars variable_def getitem2 [OF lat] getitem2 [OF lon]
        geom_rows_def)
qed

lemma append_data_eq:
  assumes c: "conforms nc ys xs time lat lon smi"
    and i: "i < length time" and m: "ma_mask (smi ! i) \<noteq> nomask"
    and y: "y < ys" and x: "x < xs"
  shows "append_data nc i y x st = Inr (st\<lparr>data := data st @ data_rows time smi i y x\<rparr>)"
proof -
  from c have vars: "var_time nc = Some time" "var_SMI nc = Some smi"
    and len: "length smi = length time"
    by (simp_all add: conforms_def)
  note sh = conforms_step [OF c i]
  show ?thesis
    using i y x
    by (simp add: append_data_def vars variable_def len getitem_in_range
        mask_at_in_range [OF sh(2) m] value_at_in_range [OF sh] data_rows_def)
qed

lemma append_data_nomask:
  assumes c: "conforms nc ys xs time lat lon smi"
    and i: "i < length time" and m: "ma_mask (smi ! i) = nomask"
  shows "append_data nc i y x st = Inl IndexError"
proof -
  from c have vars: "var_SMI nc = Some smi" and len: "length smi = length time"
    by (simp_all add: conforms_def)
  show ?thesis
    using i by (simp add: append_data_def vars variable_def len getitem_in_range mask_at_nomask [OF m])
qed

lemma cell_body_eq:
  assumes c: "conforms nc ys xs time lat lon smi"
    and i: "i < length time" and m: "ma_mask (smi ! i) \<noteq> nomask"
    and y: "y < ys" and x: "x < xs"
  shows "cell_body nc i y x st =
     Inr \<lparr>data = data st @ data_rows time smi i y x,
          data_geom = data_geom st @ geom_rows lat lon i y x\<rparr>"
  by (simp add: cell_body_def append_geom_eq [OF c y x] append_data_eq [OF c i m y x])

lemma for_range_appends:
  assumes "\<And>k st. k \<in> set ks \<Longrightarrow>
     body k st = Inr \<lparr>data = data st @ D k, data_geom = data_geom st @ G k\<rparr>"
  shows "for_range body ks st =
     Inr \<lparr>data = data st @ concat (map D ks), data_geom = data_geom st @ concat (map G ks)\<rparr>"
  using assms
proof (induction ks arbitrary: st)
  case Nil
  then show ?case by simp
next
  case (Cons k ks)
  then show ?case by simp
qed

lemma time_step_eq:
  assumes c: "conforms nc ys xs time lat lon smi"
    and i: "i < length time" and m: "ma_mask (smi ! i) \<noteq> nomask"
  shows "time_step nc ys xs i st =
     Inr \<lparr>data = data st @ over_grid ys xs (data_rows time smi i),
          data_geom = data_geom st @ over_grid ys xs (geom_rows lat lon i)\<rparr>"
  unfolding time_step_def over_grid_def
proof (rule for_range_appends)
  fix x st
  assume "x \<in> set [0..<xs]"
  then have x: "x < xs" by simp
  show "for_range (\<lambda>y. cell_body nc i y x) [0..<ys] st =
     Inr \<lparr>data = data st @ concat (map (\<lambda>y. data_rows time smi i y x) [0..<ys]),
          data_geom = data_geom st @ concat (map (\<lambda>y. geom_rows lat lon i y x) [0..<ys])\<rparr>"
  proof (rule for_range_appends)
    fix y st
    assume "y \<in> set [0..<ys]"
    then have "y < ys" by simp
    then show "cell_body nc i y x st =
       Inr \<lparr>data = data st @ data_rows time smi i y x,
            data_geom = data_geom st @ geom_rows lat lon i y x\<rparr>"
      using x by (rule cell_body_eq [OF c i m])
  qed
qed

lemma extraction_eq:
  assumes c: "conforms nc ys xs time lat lon smi" and n: "stop \<le> length time"
    and m: "\<forall>i < stop. ma_mask (smi ! i) \<noteq> nomask"
  shows "extraction nc stop =
     Inr \<lparr>data = concat (map (\<lambda>i. over_grid ys xs (data_rows time smi i)) [0..<stop]),
          data_geom = concat (map (\<lambda>i. over_grid ys xs (geom_rows lat lon i)) [0..<stop])\<rparr>"
proof -
  from c have dims: "dimension_size nc ''northing'' = Inr ys"
      "dimension_size nc ''easting'' = Inr xs"
    by (simp_all add: conforms_def dimension_size_def)
  have "for_range (time_step nc ys xs) [0..<stop] \<lparr>data = [], data_geom = []\<rparr> =
     Inr \<lparr>data = data \<lparr>data = [], data_geom = []\<rparr> @
              concat (map (\<lambda>i. over_grid ys xs (data_rows time smi i)) [0..<stop]),
          data_geom = data_geom \<lparr>data = [], data_geom = []\<rparr> @
              concat (map (\<lambda>i. over_grid ys xs (geom_rows lat lon i)) [0..<stop])\<rparr>"
  proof (rule for_range_appends)
    fix i st
    assume "i \<in> set [0..<stop]"
    with n m have "i < length time" "ma_mask (smi ! i) \<noteq> nomask" by simp_all
    then show "time_step nc ys xs i st =
       Inr \<lparr>data = data st @ over_grid ys xs (data_rows time smi i),
            data_geom = data_geom st @ over_grid ys xs (geom_rows lat lon i)\<rparr>"
      by (rule time_step_eq [OF c])
  qed
  then show ?thesis by (simp add: extraction_def dims)
qed

subsection \<open>The small file\<close>

lemma small_grid_conforms:
  "has_shape lat 2 2 \<Longrightarrow> has_shape lon 2 2 \<Longrightarrow>
   conforms (small_grid lat lon fill) 2 2 [100] lat lon (small_smi fill)"
  by (simp add: conforms_def small_grid_def small_smi_def has_shape_def)

lemma combine_digits:
  "y < 10 \<Longrightarrow> x < 10 \<Longrightarrow> combine y x = [digit_char y, CHR ''-'', digit_char x]"
  by (simp add: combine_def str_nat_small)

lemma small_grid_result:
  "extraction (small_grid [[a, b], [c, d]] [[e, f], [g, h]] fill) 1 =
     Inr \<lparr>data = [[PyStr ''0-0'', PyInt 100, PyFloat 1],
                 [PyStr ''1-0'', PyInt 100, PyFloat 2],
                 [PyStr ''1-1'', PyInt 100, PyFloat 3]],
          data_geom = [[PyStr ''0-0'', PyFloat a, PyFloat e],
                      [PyStr ''1-0'', PyFloat c, PyFloat g],
                      [PyStr ''0-1'', PyFloat b, PyFloat f],
                      [PyStr ''1-1'', PyFloat d, PyFloat h]]\<rparr>"
proof -
  have c: "conforms (small_grid [[a, b], [c, d]] [[e, f], [g, h]] fill) 2 2 [100]
      [[a, b], [c, d]] [[e, f], [g, h]] (small_smi fill)"
    by (simp add: small_grid_conforms has_shape_def)
  have n: "(1::nat) \<le> length [100::32 word]" by simp
  have m: "\<forall>i<1. ma_mask (small_smi fill ! i) \<noteq> nomask" by (simp add: small_smi_def)
  have two: "[0..<2] = [0, 1]" by (simp add: upt_rec)
  show ?thesis
    unfolding extraction_eq [OF c n m]
    by (simp add: over_grid_def two data_rows_def geom_rows_def small_smi_def masked_at_def
        combine_digits digit_char_def)
qed

text \<open>
  C6: the 2 by 2 grid with the single time value 100 and
  \<^verbatim>\<open>SMI = [[1.0, masked], [2.0, 3.0]]\<close>, whatever \<open>lat\<close> and \<open>lon\<close> hold: four geometry
  rows with the identifiers 0-0, 1-0, 0-1 and 1-1 (the loop walks column by column),
  and three measurement rows, all with time 100, none for the masked cell 0-1.
\<close>

theorem scenario:
  "extraction (small_grid [[a, b], [c, d]] [[e, f], [g, h]] fill) 1 =
     Inr \<lparr>data = [[PyStr ''0-0'', PyInt 100, PyFloat 1],
                 [PyStr ''1-0'', PyInt 100, PyFloat 2],
                 [PyStr ''1-1'', PyInt 100, PyFloat 3]],
          data_geom = [[PyStr ''0-0'', PyFloat a, PyFloat e],
                      [PyStr ''1-0'', PyFloat c, PyFloat g],
                      [PyStr ''0-1'', PyFloat b, PyFloat f],
                      [PyStr ''1-1'', PyFloat d, PyFloat h]]\<rparr>"
  by (rule small_grid_result)

text \<open>
  C3, as claimed, fails: with \<open>stop = 0\<close> the loop body never runs, so on the 2 by 2
  grid the geometry list is empty and not of length 2 * 2.
\<close>

theorem empty_range_counterexample:
  "extraction (small_grid [[1, 2], [3, 4]] [[5, 6], [7, 8]] 0) 0 =
     Inr \<lparr>data = [], data_geom = []\<rparr> \<and>
   dimension_size (small_grid [[1, 2], [3, 4]] [[5, 6], [7, 8]] 0) ''northing'' = Inr 2 \<and>
   dimension_size (small_grid [[1, 2], [3, 4]] [[5, 6], [7, 8]] 0) ''easting'' = Inr 2 \<and>
   length (data_geom (projr (extraction (small_grid [[1, 2], [3, 4]] [[5, 6], [7, 8]] 0) 0)))
     \<noteq> 2 * 2"
  by (simp add: extraction_def dimension_size_def small_grid_def)

text \<open>
  C3, amended: on a file that declares both grid dimensions, an empty range of time
  steps gives an empty geometry list and an empty measurement list; the geometry rows
  are appended only inside the pass for time step 0.
\<close>

theorem empty_range:
  assumes "dimension_size nc ''northing'' = Inr ys" and "dimension_size nc ''easting'' = Inr xs"
  shows "extraction nc 0 = Inr \<lparr>data = [], data_geom = []\<rparr>"
  using assms by (simp add: extraction_def)

theorem empty_range_witness:
  "dimension_size (small_grid [[1, 2], [3, 4]] [[5, 6], [7, 8]] 0) ''northing'' = Inr 2 \<and>
   dimension_size (small_grid [[1, 2], [3, 4]] [[5, 6], [7, 8]] 0) ''easting'' = Inr 2 \<and>
   extraction (small_grid [[1, 2], [3, 4]] [[5, 6], [7, 8]] 0) 0 = Inr \<lparr>data = [], data_geom = []\<rparr>"
proof -
  let ?nc = "small_grid [[1, 2], [3, 4]] [[5, 6], [7, 8]] 0"
  have a: "dimension_size ?nc ''northing'' = Inr 2" and b: "dimension_size ?nc ''easting'' = Inr 2"
    by (simp_all add: dimension_size_def small_grid_def)
  from a b empty_range [OF a b] show ?thesis by simp
qed

subsection \<open>A time step without a missing value\<close>

lemma unmasked_grid_conforms:
  "has_shape lat 2 2 \<Longrightarrow> has_shape lon 2 2 \<Longrightarrow>
   conforms (unmasked_grid lat lon) 2 2 [100] lat lon [\<lparr>ma_data = [[1, 4], [2, 3]], ma_mask = nomask\<rparr>]"
  by (simp add: conforms_def unmasked_grid_def has_shape_def)

text \<open>
  C1 asks for a measurement row for every cell of every selected time step whose mask
  is \<open>False\<close>. On the 2 by 2 file whose only time step has no missing value, no cell
  is masked, and yet the extraction gives no row: the mask of that time step is the
  scalar \<^verbatim>\<open>nomask\<close>, the loop indexes it at the first cell, and the run ends there
  with \<^verbatim>\<open>IndexError\<close>.
\<close>

theorem unmasked_step_raises:
  "extraction (unmasked_grid [[a, b], [c, d]] [[e, f], [g, h]]) 1 = Inl IndexError"
proof -
  let ?nc = "unmasked_grid [[a, b], [c, d]] [[e, f], [g, h]]"
  have c: "conforms ?nc 2 2 [100] [[a, b], [c, d]] [[e, f], [g, h]]
      [\<lparr>ma_data = [[1, 4], [2, 3]], ma_mask = nomask\<rparr>]"
    by (simp add: unmasked_grid_conforms has_shape_def)
  have dims: "dimension_size ?nc ''northing'' = Inr 2" "dimension_size ?nc ''easting'' = Inr 2"
    by (simp_all add: dimension_size_def unmasked_grid_def)
  have two: "[0..<2] = [0, 1]" by (simp add: upt_rec)
  have "cell_body ?nc 0 0 0 st = Inl IndexError" for st
    by (simp add: cell_body_def append_geom_eq [OF c] append_data_nomask [OF c])
  then show ?thesis
    by (simp add: extraction_def dims time_step_def two)
qed

text \<open>
  C2 asks for \<open>ys * xs\<close> geometry rows as soon as one time step is selected. On the
  same file the first cell's geometry row is appended, the statement after it raises
  \<^verbatim>\<open>IndexError\<close> on the scalar mask, and the pass over the grid ends there: the
  geometry list stops at one row, not 2 * 2.
\<close>

theorem first_cell_raises:
  "append_geom (unmasked_grid [[a, b], [c, d]] [[e, f], [g, h]]) 0 0 0 \<lparr>data = [], data_geom = []\<rparr> =
     Inr \<lparr>data = [], data_geom = [[PyStr ''0-0'', PyFloat a, PyFloat e]]\<rparr> \<and>
   append_data (unmasked_grid [[a, b], [c, d]] [[e, f], [g, h]]) 0 0 0
       \<lparr>data = [], data_geom = [[PyStr ''0-0'', PyFloat a, PyFloat e]]\<rparr> =
     Inl IndexError \<and>
   time_step (unmasked_grid [[a, b], [c, d]] [[e, f], [g, h]]) 2 2 0 \<lparr>data = [], data_geom = []\<rparr> =
     Inl IndexError"
proof -
  let ?nc = "unmasked_grid [[a, b], [c, d]] [[e, f], [g, h]]"
  have c: "conforms ?nc 2 2 [100] [[a, b], [c, d]] [[e, f], [g, h]]
      [\<lparr>ma_data = [[1, 4], [2, 3]], ma_mask = nomask\<rparr>]"
    by (simp add: unmasked_grid_conforms has_shape_def)
  have two: "[0..<2] = [0, 1]" by (simp add: upt_rec)
  have g: "append_geom ?nc 0 0 0 \<lparr>data = [], data_geom = []\<rparr> =
     Inr \<lparr>data = [], data_geom = [[PyStr ''0-0'', PyFloat a, PyFloat e]]\<rparr>"
    by (simp add: append_geom_eq [OF c] geom_rows_def combine_digits digit_char_def)
  have d: "append_data ?nc 0 0 0 st = Inl IndexError" for st
    by (simp add: append_data_nomask [OF c])
  have "time_step ?nc 2 2 0 \<lparr>data = [], data_geom = []\<rparr> = Inl IndexError"
    by (simp add: time_step_def two cell_body_def g d)
  with g d show ?thesis by simp
qed

subsection \<open>Walking the grid\<close>

lemma in_over_grid:
  "r \<in> set (over_grid ys xs f) \<longleftrightarrow> (\<exists>y<ys. \<exists>x<xs. r \<in> set (f y x))"
  unfolding over_grid_def by fastforce

lemma length_over_grid:
  "length (over_grid ys xs f) = (\<Sum>x\<leftarrow>[0..<xs]. \<Sum>y\<leftarrow>[0..<ys]. length (f y x))"
  by (simp add: over_grid_def length_concat comp_def)

lemma filter_over_grid:
  "filter P (over_grid ys xs f) = over_grid ys xs (\<lambda>y x. filter P (f y x))"
  by (simp add: over_grid_def filter_concat comp_def)

lemma sum_list_indicator:
  "(\<Sum>k\<leftarrow>[0..<n]. if k = a then c else 0) = (if a < n then c else (0::nat))"
  by (induction n) auto

lemma concat_first_only:
  assumes "\<And>i. 0 < i \<Longrightarrow> F i = []"
  shows "concat (map F [0..<n]) = (if n = 0 then [] else F 0)"
proof (induction n)
  case 0
  then show ?case by simp
next
  case (Suc n)
  then show ?case by (cases "n = 0") (simp_all add: assms)
qed

lemma count_cell_id:
  assumes "y0 < ys" "x0 < xs"
  shows "length (filter (\<lambda>j. j = Some (PyStr (combine y0 x0)))
            (over_grid ys xs (\<lambda>y x. [Some (PyStr (combine y x))]))) = 1"
proof -
  have one: "length (filter (\<lambda>j. j = Some (PyStr (combine y0 x0))) [Some (PyStr (combine y x))])
      = (if y = y0 then (if x = x0 then 1 else 0) else 0)" for y x
    using combine_inj [of y x y0 x0] by auto
  show ?thesis
    unfolding filter_over_grid length_over_grid one
    using assms by (simp add: sum_list_indicator)
qed

subsection \<open>The identifiers in the two lists\<close>

lemma bind_err_Inr_iff:
  "bind_err r f = Inr b \<longleftrightarrow> (\<exists>a. r = Inr a \<and> f a = Inr b)"
  by (cases r) simp_all

lemma append_geom_ids:
  assumes "append_geom nc i y x s = Inr s'"
  shows "map row_id (data_geom s') =
      map row_id (data_geom s) @ (if i = 0 then [Some (PyStr (combine y x))] else [])"
    and "data s' = data s"
  using assms
  by (auto simp add: append_geom_def bind_err_Inr_iff row_id_def split: if_splits)

lemma append_data_ids:
  assumes "append_data nc i y x s = Inr s'"
  shows "data_geom s' = data_geom s"
    and "set (map row_id (data s')) \<subseteq> set (map row_id (data s)) \<union> {Some (PyStr (combine y x))}"
  using assms
  by (auto simp add: append_data_def bind_err_Inr_iff row_id_def split: if_splits)

lemma cell_body_ids:
  assumes "cell_body nc i y x s = Inr s'"
  shows "map row_id (data_geom s') =
      map row_id (data_geom s) @ (if i = 0 then [Some (PyStr (combine y x))] else []) \<and>
    set (map row_id (data s')) \<subseteq> set (map row_id (data s)) \<union> {Some (PyStr (combine y x))}"
proof -
  from assms obtain s1 where g: "append_geom nc i y x s = Inr s1"
    and d: "append_data nc i y x s1 = Inr s'"
    by (auto simp add: cell_body_def bind_err_Inr_iff)
  from append_geom_ids [OF g] append_data_ids [OF d] show ?thesis by simp
qed

lemma for_range_ids:
  assumes body: "\<And>k s s'. k \<in> set ks \<Longrightarrow> body k s = Inr s' \<Longrightarrow>
      map row_id (data_geom s') = map row_id (data_geom s) @ G k \<and>
      set (map row_id (data s')) \<subseteq> set (map row_id (data s)) \<union> D k"
    and run: "for_range body ks s = Inr s'"
  shows "map row_id (data_geom s') = map row_id (data_geom s) @ concat (map G ks) \<and>
      set (map row_id (data s')) \<subseteq> set (map row_id (data s)) \<union> (\<Union>k\<in>set ks. D k)"
  using assms
proof (induction ks arbitrary: s)
  case Nil
  then show ?case by simp
next
  case (Cons k ks)
  from Cons.prems(2) obtain s1 where first: "body k s = Inr s1"
    and rest: "for_range body ks s1 = Inr s'"
    by (auto simp add: bind_err_Inr_iff)
  have one: "map row_id (data_geom s1) = map row_id (data_geom s) @ G k \<and>
      set (map row_id (data s1)) \<subseteq> set (map row_id (data s)) \<union> D k"
    using first by (intro Cons.prems(1)) simp_all
  have "map row_id (data_geom s') = map row_id (data_geom s1) @ concat (map G ks) \<and>
      set (map row_id (data s')) \<subseteq> set (map row_id (data s1)) \<union> (\<Union>k\<in>set ks. D k)"
    using rest by (intro Cons.IH Cons.prems(1)) simp_all
  with one show ?case
    by (simp add: sup_assoc [symmetric]) blast
qed

lemma time_step_ids:
  assumes "time_step nc ys xs i s = Inr s'"
  shows "map row_id (data_geom s') = map row_id (data_geom s) @
        over_grid ys xs (\<lambda>y x. if i = 0 then [Some (PyStr (combine y x))] else []) \<and>
      set (map row_id (data s')) \<subseteq> set (map row_id (data s)) \<union>
        (\<Union>x\<in>set [0..<xs]. \<Union>y\<in>set [0..<ys]. {Some (PyStr (combine y x))})"
  unfolding over_grid_def
proof (rule for_range_ids [where body = "\<lambda>x. for_range (\<lambda>y. cell_body nc i y x) [0..<ys]"])
  show "for_range (\<lambda>x. for_range (\<lambda>y. cell_body nc i y x) [0..<ys]) [0..<xs] s = Inr s'"
    using assms by (simp add: time_step_def)
next
  fix x s s'
  assume "for_range (\<lambda>y. cell_body nc i y x) [0..<ys] s = Inr s'"
  then show "map row_id (data_geom s') = map row_id (data_geom s) @
        concat (map (\<lambda>y. if i = 0 then [Some (PyStr (combine y x))] else []) [0..<ys]) \<and>
      set (map row_id (data s')) \<subseteq> set (map row_id (data s)) \<union>
        (\<Union>y\<in>set [0..<ys]. {Some (PyStr (combine y x))})"
    by (rule for_range_ids [rotated]) (rule cell_body_ids)
qed

lemma extraction_ids:
  assumes "extraction nc stop = Inr st"
  shows "\<exists>ys xs.
      map row_id (data_geom st) =
        (if stop = 0 then [] else over_grid ys xs (\<lambda>y x. [Some (PyStr (combine y x))])) \<and>
      (\<forall>j\<in>set (map row_id (data st)).
         stop \<noteq> 0 \<and> (\<exists>y<ys. \<exists>x<xs. j = Some (PyStr (combine y x))))"
proof -
  from assms obtain ys xs where
    run: "for_range (time_step nc ys xs) [0..<stop] \<lparr>data = [], data_geom = []\<rparr> = Inr st"
    by (auto simp add: extraction_def bind_err_Inr_iff)
  let ?G = "\<lambda>i::nat. over_grid ys xs (\<lambda>y x. if i = 0 then [Some (PyStr (combine y x))] else [])"
  let ?D = "\<lambda>i::nat. \<Union>x\<in>set [0..<xs]. \<Union>y\<in>set [0..<ys]. {Some (PyStr (combine y x))}"
  have "map row_id (data_geom st) =
        map row_id (data_geom \<lparr>data = [], data_geom = []\<rparr>) @ concat (map ?G [0..<stop]) \<and>
      set (map row_id (data st)) \<subseteq>
        set (map row_id (data \<lparr>data = [], data_geom = []\<rparr>)) \<union> (\<Union>i\<in>set [0..<stop]. ?D i)"
    using run by (rule for_range_ids [rotated]) (rule time_step_ids)
  then have g: "map row_id (data_geom st) = concat (map ?G [0..<stop])"
    and d: "set (map row_id (data st)) \<subseteq> (\<Union>i\<in>set [0..<stop]. ?D i)"
    by simp_all
  have later: "?G i = []" if "0 < i" for i
    using that by (simp add: over_grid_def)
  have "concat (map ?G [0..<stop]) = (if stop = 0 then [] else ?G 0)"
    by (rule concat_first_only) (rule later)
  with g have "map row_id (data_geom st) =
      (if stop = 0 then [] else over_grid ys xs (\<lambda>y x. [Some (PyStr (combine y x))]))"
    by simp
  moreover have "stop \<noteq> 0 \<and> (\<exists>y<ys. \<exists>x<xs. j = Some (PyStr (combine y x)))"
    if "j \<in> set (map row_id (data st))" for j
  proof -
    from that d have "j \<in> (\<Union>i\<in>set [0..<stop]. ?D i)" by blast
    then obtain x y where "stop \<noteq> 0" "x < xs" "y < ys" "j = Some (PyStr (combine y x))"
      by (auto split: if_splits)
    then show ?thesis by auto
  qed
  ultimately show ?thesis by blast
qed

text \<open>
  C4: whenever the extraction returns, on any file and for any range of time steps,
  every row of \<open>data\<close> has an identifier, and exactly one row of \<open>data_geom\<close> of
  the same run has that identifier.
\<close>

theorem referential_completeness:
  assumes "extraction nc stop = Inr st"
  shows "\<forall>r\<in>set (data st). row_id r \<noteq> None \<and>
     length (filter (\<lambda>g. row_id g = row_id r) (data_geom st)) = 1"
proof
  fix r
  assume r: "r \<in> set (data st)"
  from extraction_ids [OF assms] obtain ys xs where
    g: "map row_id (data_geom st) =
        (if stop = 0 then [] else over_grid ys xs (\<lambda>y x. [Some (PyStr (combine y x))]))"
    and d: "\<forall>j\<in>set (map row_id (data st)).
         stop \<noteq> 0 \<and> (\<exists>y<ys. \<exists>x<xs. j = Some (PyStr (combine y x)))"
    by blast
  from r have "row_id r \<in> set (map row_id (data st))" by simp
  with d obtain y x where stop: "stop \<noteq> 0" and y: "y < ys" and x: "x < xs"
    and id: "row_id r = Some (PyStr (combine y x))"
    by blast
  have "length (filter (\<lambda>g. row_id g = row_id r) (data_geom st)) =
      length (filter (\<lambda>j. j = row_id r) (map row_id (data_geom st)))"
    by (simp add: filter_map comp_def)
  also have "\<dots> = 1"
    using stop y x by (simp add: g id count_cell_id)
  finally show "row_id r \<noteq> None \<and>
     length (filter (\<lambda>g. row_id g = row_id r) (data_geom st)) = 1"
    using id by simp
qed

theorem referential_completeness_witness:
  "extraction (small_grid [[1, 2], [3, 4]] [[5, 6], [7, 8]] 0) 1 =
     Inr \<lparr>data = [[PyStr ''0-0'', PyInt 100, PyFloat 1],
                 [PyStr ''1-0'', PyInt 100, PyFloat 2],
                 [PyStr ''1-1'', PyInt 100, PyFloat 3]],
          data_geom = [[PyStr ''0-0'', PyFloat 1, PyFloat 5],
                      [PyStr ''1-0'', PyFloat 3, PyFloat 7],
                      [PyStr ''0-1'', PyFloat 2, PyFloat 6],
                      [PyStr ''1-1'', PyFloat 4, PyFloat 8]]\<rparr> \<and>
   row_id [PyStr ''1-1'', PyInt 100, PyFloat 3] \<noteq> None \<and>
   length (filter (\<lambda>g. row_id g = row_id [PyStr ''1-1'', PyInt 100, PyFloat 3])
     [[PyStr ''0-0'', PyFloat 1, PyFloat 5],
      [PyStr ''1-0'', PyFloat 3, PyFloat 7],
      [PyStr ''0-1'', PyFloat 2, PyFloat 6],
      [PyStr ''1-1'', PyFloat 4, PyFloat 8]]) = 1"
proof -
  note ex = small_grid_result [of 1 2 3 4 5 6 7 8 0]
  from referential_completeness [OF ex, THEN bspec, of "[PyStr ''1-1'', PyInt 100, PyFloat 3]"]
  have "row_id [PyStr ''1-1'', PyInt 100, PyFloat 3] \<noteq> None \<and>
    length (filter (\<lambda>g. row_id g = row_id [PyStr ''1-1'', PyInt 100, PyFloat 3])
     [[PyStr ''0-0'', PyFloat 1, PyFloat 5],
      [PyStr ''1-0'', PyFloat 3, PyFloat 7],
      [PyStr ''0-1'', PyFloat 2, PyFloat 6],
      [PyStr ''1-1'', PyFloat 4, PyFloat 8]]) = 1"
    by simp
  with ex show ?thesis by simp
qed

subsection \<open>The table writer\<close>

lemma write_hyper_eq:
  assumes d: "add_rows (columns schema_data) d = Inr dc"
    and g: "add_rows (columns schema_geom) g = Inr gc"
  shows "write_hyper d g =
     (None, \<lparr>schemas = [''public'', ''Data'', ''Geom''],
             tables = [\<lparr>definition_of = schema_data, rows = dc\<rparr>,
                       \<lparr>definition_of = schema_geom, rows = gc\<rparr>]\<rparr>)"
proof -
  have ne: "schema_data \<noteq> schema_geom" by (simp add: schema_data_def schema_geom_def)
  have nm: "table_name schema_data = (''Data'', ''Data'')" "table_name schema_geom = (''Geom'', ''Geom'')"
    by (simp_all add: schema_data_def schema_geom_def)
  show ?thesis
    using ne ne [symmetric]
    by (simp add: write_hyper_def statement_def new_database_def create_schema_def
        create_table_def insert_rows_def nm d g)
qed





subsection \<open>The whole run\<close>

text \<open>
  C8: when the input cannot be opened, or it lacks the \<^verbatim>\<open>northing\<close> dimension, or the
  extraction raises while reading it, the run ends with that exception and the files
  are as before: the connection to the output is never opened, and a file already at
  the output path is untouched.
\<close>

theorem read_failure_leaves_files:
  assumes "Dataset fs inp = Inl e \<or>
     (\<exists>nc. Dataset fs inp = Inr nc \<and>
        (dimension_size nc ''northing'' = Inl e \<or> extraction nc stop = Inl e))"
  shows "run inp stop fs = (Some e, fs)"
proof -
  have "bind_err (Dataset fs inp) (\<lambda>nc. extraction nc stop) = Inl e"
    using assms by (auto simp add: extraction_def)
  then show ?thesis by (simp add: run_def)
qed

theorem read_failure_leaves_files_witness:
  "(Dataset [''a.nc'' \<mapsto> NetCDF no_northing, ''a.hyper'' \<mapsto> Hyper new_database] ''a.nc''
      = Inl (KeyError ''northing'') \<or>
    (\<exists>nc. Dataset [''a.nc'' \<mapsto> NetCDF no_northing, ''a.hyper'' \<mapsto> Hyper new_database] ''a.nc''
        = Inr nc \<and>
        (dimension_size nc ''northing'' = Inl (KeyError ''northing'') \<or>
         extraction nc 1 = Inl (KeyError ''northing'')))) \<and>
   run ''a.nc'' 1 [''a.nc'' \<mapsto> NetCDF no_northing, ''a.hyper'' \<mapsto> Hyper new_database] =
     (Some (KeyError ''northing''),
      [''a.nc'' \<mapsto> NetCDF no_northing, ''a.hyper'' \<mapsto> Hyper new_database])"
proof -
  let ?fs = "[''a.nc'' \<mapsto> NetCDF no_northing, ''a.hyper'' \<mapsto> Hyper new_database]"
  have h: "Dataset ?fs ''a.nc'' = Inl (KeyError ''northing'') \<or>
    (\<exists>nc. Dataset ?fs ''a.nc'' = Inr nc \<and>
        (dimension_size nc ''northing'' = Inl (KeyError ''northing'') \<or>
         extraction nc 1 = Inl (KeyError ''northing'')))"
    by (simp add: Dataset_def dimension_size_def no_northing_def)
  from h read_failure_leaves_files [OF h] show ?thesis by blast
qed

text \<open>
  C9: a second run on the files the first run left gives the same result and the same
  files. The output path is never the input path, so the second run reads the same
  input; the connection replaces what the first run wrote instead of adding to it.
\<close>

theorem run_twice: "run inp stop (snd (run inp stop fs)) = run inp stop fs"
proof (cases "bind_err (Dataset fs inp) (\<lambda>nc. extraction nc stop)")
  case (Inl e)
  then show ?thesis by (simp add: run_def)
next
  case (Inr st)
  obtain err db where w: "write_hyper (data st) (data_geom st) = (err, db)"
    by (cases "write_hyper (data st) (data_geom st)")
  let ?fs = "fs(OUTPUT_HYPER inp \<mapsto> Hyper db)"
  from Inr w have first: "run inp stop fs = (err, ?fs)" by (simp add: run_def)
  have "Dataset ?fs inp = Dataset fs inp"
    using output_differs [of inp] by (simp add: Dataset_def)
  with Inr w have "run inp stop ?fs = (err, ?fs)" by (simp add: run_def)
  with first show ?thesis by simp
qed

subsection \<open>A file that fits its header goes through\<close>

text \<open>
  When every selected time step has a mask array, the rows the extraction collects are
  records, so the writer accepts them: the run raises nothing and leaves the two
  tables at the output path.
\<close>

lemma to_cells_record:
  assumes "is_record r"
  shows "\<exists>cs. to_cells [(n1, SqlText), (n2, SqlDouble), (n3, SqlDouble)] r = Inr cs"
  using assms
  by (induction r rule: is_record.induct) (auto elim!: is_number.elims)

lemma add_rows_records:
  assumes "list_all is_record rs" and "cols = [(n1, SqlText), (n2, SqlDouble), (n3, SqlDouble)]"
  shows "\<exists>cs. add_rows cols rs = Inr cs"
  using assms
proof (induction rs)
  case Nil
  then show ?case by simp
next
  case (Cons r rs)
  then obtain cs where cs: "add_rows cols rs = Inr cs"
    by auto
  from Cons.prems obtain c where c: "to_cells cols r = Inr c"
    using to_cells_record [of r n1 n2 n3] by auto
  from cs c show ?case by simp
qed

lemma extraction_rows_are_records:
  assumes c: "conforms nc ys xs time lat lon smi" and n: "stop \<le> length time"
    and m: "\<forall>i < stop. ma_mask (smi ! i) \<noteq> nomask"
    and ex: "extraction nc stop = Inr st"
  shows "list_all is_record (data st)" and "list_all is_record (data_geom st)"
proof -
  from ex extraction_eq [OF c n m]
  have d: "data st = concat (map (\<lambda>i. over_grid ys xs (data_rows time smi i)) [0..<stop])"
    and g: "data_geom st = concat (map (\<lambda>i. over_grid ys xs (geom_rows lat lon i)) [0..<stop])"
    by auto
  have "is_record r" if "r \<in> set (data st)" for r
    using that unfolding d
    by (auto simp add: in_over_grid data_rows_def split: if_splits)
  then show "list_all is_record (data st)" by (simp add: list_all_iff)
  have "is_record r" if "r \<in> set (data_geom st)" for r
    using that unfolding g
    by (auto simp add: in_over_grid geom_rows_def split: if_splits)
  then show "list_all is_record (data_geom st)" by (simp add: list_all_iff)
qed

lemma run_on_conforming:
  assumes f: "fs inp = Some (NetCDF nc)"
    and c: "conforms nc ys xs time lat lon smi" and n: "stop \<le> length time"
    and m: "\<forall>i < stop. ma_mask (smi ! i) \<noteq> nomask"
  shows "\<exists>db. run inp stop fs = (None, fs(OUTPUT_HYPER inp \<mapsto> Hyper db)) \<and>
     map definition_of (tables db) = [schema_data, schema_geom]"
proof -
  from extraction_eq [OF c n m] obtain st where ex: "extraction nc stop = Inr st" by blast
  note rec = extraction_rows_are_records [OF c n m ex]
  from add_rows_records [OF rec(1), of "columns schema_data"] obtain dc where
    dc: "add_rows (columns schema_data) (data st) = Inr dc"
    by (auto simp add: schema_data_def)
  from add_rows_records [OF rec(2), of "columns schema_geom"] obtain gc where
    gc: "add_rows (columns schema_geom) (data_geom st) = Inr gc"
    by (auto simp add: schema_geom_def)
  let ?db = "\<lparr>schemas = [''public'', ''Data'', ''Geom''],
             tables = [\<lparr>definition_of = schema_data, rows = dc\<rparr>,
                       \<lparr>definition_of = schema_geom, rows = gc\<rparr>]\<rparr>"
  from f ex have "run inp stop fs = (None, fs(OUTPUT_HYPER inp \<mapsto> Hyper ?db))"
    by (simp add: run_def Dataset_def write_hyper_eq [OF dc gc])
  moreover have "map definition_of (tables ?db) = [schema_data, schema_geom]"
    by simp
  ultimately show ?thesis by - (rule exI [of _ ?db], rule conjI)
qed

end
